theory Spec2Isabelle
  imports Complex_Main
begin

section \<open>Data model\<close>

text \<open>
  The program is a Python script. Its floating-point numbers (onset times, elapsed
  seconds, BPM values) are modelled as exact reals: rounding is not modelled. Tick
  positions, which the script holds as the integral floats \<open>0.0, 96.0, 192.0, ...\<close> and
  looks up among the integer keys of the sync track, are modelled as integers.
  Exceptions are values of \<open>py_error\<close>; a computation that raises returns \<open>Inl\<close>.
  A loop that does not return has the value \<open>None\<close>.
\<close>

datatype py_error = KeyError | TypeError | ZeroDivisionError | ValueError

text \<open>The three instrument keys of the categories dictionary.\<close>

datatype category = drums_other | snare | kick

text \<open>
  The dictionaries \<open>{'instrument': ..., 'time': ...}\<close>: with a time in seconds in the
  chart of detected hits, with a tick position in the result of the mapper.
\<close>

record 'a chart_entry =
  instrument :: category
  time :: 'a

text \<open>The dictionaries \<open>{'8th': ..., 'seconds': ...}\<close> of the mapper's search.\<close>

record candidate =
  eighth :: int
  seconds :: real

text \<open>
  The sync track is the dictionary from tick to BPM times 1000 that \<open>read_sync_track\<close>
  returns, or Python's \<open>None\<close> when no chart file was found.
\<close>

type_synonym sync_track = "(int \<rightharpoonup> int) option"

section \<open>Resolution constants\<close>

text \<open>The global \<open>RESOLUTION\<close>, set to 192 when the script starts.\<close>

definition RESOLUTION :: real where
  "RESOLUTION = 192"

text \<open>The local \<open>RESULUTION = 192 / 2\<close> of \<open>map_to_beat_time\<close>: the search step in ticks.\<close>

definition RESULUTION :: int where
  "RESULUTION = 192 div 2"

section \<open>Hit extraction\<close>

subsection \<open>The energy mask of \<open>detect_hits\<close>\<close>

text \<open>
  \<open>mask = np.repeat(mask, int(np.ceil(len(y) / mask.shape[1])), axis=1)\<close> followed by
  \<open>mask = mask[:, :len(y)]\<close>. The mask has one row; it is modelled as the list of
  that row. The division raises when the mask has no frame.
\<close>

definition upsample_mask :: "bool list \<Rightarrow> nat \<Rightarrow> py_error + bool list" where
  "upsample_mask mask_arr len_y =
     (if length mask_arr = 0 then Inl ZeroDivisionError
      else let reps = nat \<lceil>real len_y / real (length mask_arr)\<rceil>;
               mask_arr = concat (map (replicate reps) mask_arr)
           in Inr (take len_y mask_arr))"

text \<open>
  \<open>y_filtered = y * mask.flatten()\<close>: the elementwise product of two one-dimensional
  arrays, where \<open>True\<close> counts as 1 and \<open>False\<close> as 0. Arrays of different lengths are
  multiplied only when one of them has length 1 (it is then broadcast); otherwise the
  product raises.
\<close>

definition apply_mask :: "real list \<Rightarrow> bool list \<Rightarrow> py_error + real list" where
  "apply_mask y mask_arr =
     (if length y = length mask_arr then Inr (map2 (\<lambda>v m. if m then v else 0) y mask_arr)
      else if length mask_arr = 1 then Inr (map (\<lambda>v. if hd mask_arr then v else 0) y)
      else if length y = 1 then Inr (map (\<lambda>m. if m then hd y else 0) mask_arr)
      else Inl ValueError)"

subsection \<open>\<open>map_to_hits\<close>\<close>

text \<open>
  The loop over the hits of one category: a kick hit is skipped when \<open>prev_hit\<close> is
  truthy (neither \<open>None\<close> nor \<open>0.0\<close>) and the hit is less than 0.1 after it.
\<close>

fun hits_loop ::
  "category \<Rightarrow> real option \<Rightarrow> real list \<Rightarrow> real chart_entry list \<Rightarrow> real chart_entry list"
where
  "hits_loop category prev_hit [] chart = chart"
| "hits_loop category prev_hit (hit # hits) chart =
     (if category = kick
         \<and> (case prev_hit of None \<Rightarrow> False | Some p \<Rightarrow> p \<noteq> 0 \<and> hit - p < 0.1)
      then hits_loop category prev_hit hits chart
      else hits_loop category (Some hit) hits
             (chart @ [\<lparr>instrument = category, time = hit\<rparr>]))"

text \<open>
  The loop over \<open>categories.items()\<close>. The dictionary is modelled as the list of its
  instrument entries in insertion order (the \<open>'all-files'\<close> entry, which the loop skips,
  is left out); a file is \<open>None\<close> or a name. \<open>detect_hits\<close> reads the audio file through
  an external library and is a parameter: the onset times for a file and a threshold.
\<close>

definition category_threshold :: "category \<Rightarrow> real" where
  "category_threshold category =
     (let threshold = 0.05;
          threshold = (if category = kick then 0.1 else threshold);
          threshold = (if category = drums_other then 0.005 else threshold)
      in threshold)"

fun map_to_hits_loop ::
  "(string \<Rightarrow> real \<Rightarrow> real list) \<Rightarrow> (category \<times> string option) list
     \<Rightarrow> real chart_entry list \<Rightarrow> real chart_entry list"
where
  "map_to_hits_loop detect_hits [] chart = chart"
| "map_to_hits_loop detect_hits ((category, file) # categories) chart =
     (case file of
        None \<Rightarrow> map_to_hits_loop detect_hits categories chart
      | Some f \<Rightarrow>
          if f = [] then map_to_hits_loop detect_hits categories chart
          else let hits = detect_hits f (category_threshold category)
               in map_to_hits_loop detect_hits categories
                    (hits_loop category None hits chart))"

definition map_to_hits ::
  "(string \<Rightarrow> real \<Rightarrow> real list) \<Rightarrow> (category \<times> string option) list
     \<Rightarrow> real chart_entry list"
where
  "map_to_hits detect_hits categories = map_to_hits_loop detect_hits categories []"

subsection \<open>The deduplication as the specification words it\<close>


section \<open>Time-to-tick mapping\<close>

text \<open>\<open>beats_to_seconds\<close>; the division \<open>1 / (bpm / 60)\<close> raises when \<open>bpm\<close> is zero.\<close>

definition beats_to_seconds :: "real \<Rightarrow> real \<Rightarrow> py_error + real" where
  "beats_to_seconds res_value bpm =
     (let beats = (res_value / RESOLUTION) * 0.5
      in if bpm / 60 = 0 then Inl ZeroDivisionError
         else Inr (beats * (1 / (bpm / 60))))"

definition seconds_to_beats :: "real \<Rightarrow> real \<Rightarrow> real" where
  "seconds_to_beats secs bpm = secs * (bpm / 60)"

text \<open>
  \<open>candidates.append(...)\<close> followed by \<open>if len(candidates) > 3: candidates.pop(0)\<close>.
\<close>

definition push_candidate :: "candidate list \<Rightarrow> candidate \<Rightarrow> candidate list" where
  "push_candidate candidates c =
     (let candidates = candidates @ [c]
      in if length candidates > 3 then tl candidates else candidates)"

text \<open>
  The \<open>while True\<close> loop of \<open>find_beat_time_for_seconds\<close>, from the loop head with the
  given values of the local variables. It returns the candidates at the \<open>break\<close>.
\<close>

partial_function (option) find_loop ::
  "(int \<rightharpoonup> int) \<Rightarrow> real \<Rightarrow> int \<Rightarrow> real \<Rightarrow> real \<Rightarrow> candidate list
     \<Rightarrow> (py_error + candidate list) option"
where
  "find_loop sync_track seconds_to_find current_8th current_bpm current_seconds candidates =
     (let current_8th = current_8th + RESULUTION
      in case (if current_8th > 0
               then (case beats_to_seconds RESOLUTION current_bpm of
                       Inl e \<Rightarrow> Inl e
                     | Inr s \<Rightarrow> Inr (current_seconds + s))
               else Inr current_seconds) of
           Inl e \<Rightarrow> Some (Inl e)
         | Inr current_seconds \<Rightarrow>
             let current_bpm = (case sync_track current_8th of
                                  Some v \<Rightarrow> real_of_int v / 1000
                                | None \<Rightarrow> current_bpm);
                 candidates = push_candidate candidates
                                \<lparr>eighth = current_8th, seconds = current_seconds\<rparr>
             in if current_seconds > seconds_to_find then Some (Inr candidates)
                else find_loop sync_track seconds_to_find
                       current_8th current_bpm current_seconds candidates)"

text \<open>The scan for the closest candidate: a later one wins only when strictly closer.\<close>

fun closest_loop :: "real \<Rightarrow> candidate option \<Rightarrow> candidate list \<Rightarrow> candidate option" where
  "closest_loop seconds_to_find closest [] = closest"
| "closest_loop seconds_to_find closest (c # candidates) =
     closest_loop seconds_to_find
       (case closest of
          None \<Rightarrow> Some c
        | Some cl \<Rightarrow>
            if \<bar>seconds c - seconds_to_find\<bar> < \<bar>seconds cl - seconds_to_find\<bar>
            then Some c else closest)
       candidates"

text \<open>
  \<open>find_beat_time_for_seconds\<close>, the closure over \<open>sync_track\<close>. Subscripting \<open>None\<close>
  raises a \<open>TypeError\<close>, a missing key 0 a \<open>KeyError\<close>.
\<close>

definition find_beat_time_for_seconds :: "sync_track \<Rightarrow> real \<Rightarrow> (py_error + int) option" where
  "find_beat_time_for_seconds sync_track seconds_to_find =
     (case sync_track of
        None \<Rightarrow> Some (Inl TypeError)
      | Some m \<Rightarrow>
          (case m 0 of
             None \<Rightarrow> Some (Inl KeyError)
           | Some v \<Rightarrow>
               (case find_loop m seconds_to_find (- RESULUTION) (real_of_int v / 1000) 0 [] of
                  None \<Rightarrow> None
                | Some (Inl e) \<Rightarrow> Some (Inl e)
                | Some (Inr candidates) \<Rightarrow>
                    (case closest_loop seconds_to_find None candidates of
                       None \<Rightarrow> Some (Inl TypeError)
                     | Some closest \<Rightarrow> Some (Inr (eighth closest))))))"

text \<open>The final loop of \<open>map_to_beat_time\<close> over the sorted hits.\<close>

fun beat_time_loop ::
  "sync_track \<Rightarrow> real chart_entry list \<Rightarrow> int chart_entry list
     \<Rightarrow> (py_error + int chart_entry list) option"
where
  "beat_time_loop sync_track [] ret = Some (Inr ret)"
| "beat_time_loop sync_track (hit # hits) ret =
     (case find_beat_time_for_seconds sync_track (time hit) of
        None \<Rightarrow> None
      | Some (Inl e) \<Rightarrow> Some (Inl e)
      | Some (Inr beat_time) \<Rightarrow>
          beat_time_loop sync_track hits
            (ret @ [\<lparr>instrument = instrument hit, time = beat_time\<rparr>]))"

definition map_to_beat_time ::
  "real chart_entry list \<Rightarrow> sync_track \<Rightarrow> (py_error + int chart_entry list) option"
where
  "map_to_beat_time hits_dict sync_track =
     (let hits_sorted_by_time = sort_key time hits_dict
      in if hits_sorted_by_time = [] then Some (Inr [])
         else beat_time_loop sync_track hits_sorted_by_time [])"

section \<open>Auxiliary notions for the proofs\<close>

text \<open>
  One iteration of the loop, read off its body: the elapsed time after the step from
  tick \<open>tk\<close>, the BPM in force after it, and the candidates after it. The step costs
  \<open>30 / bpm\<close> seconds: half a beat.
\<close>

definition step_seconds :: "int \<Rightarrow> real \<Rightarrow> real \<Rightarrow> real" where
  "step_seconds tk bpm s = (if 0 < tk + RESULUTION then s + 30 / bpm else s)"

definition step_bpm :: "(int \<rightharpoonup> int) \<Rightarrow> int \<Rightarrow> real \<Rightarrow> real" where
  "step_bpm m tk bpm = (case m (tk + RESULUTION) of Some v \<Rightarrow> real_of_int v / 1000 | None \<Rightarrow> bpm)"

definition step_candidates :: "int \<Rightarrow> real \<Rightarrow> real \<Rightarrow> candidate list \<Rightarrow> candidate list" where
  "step_candidates tk bpm s cs =
     push_candidate cs \<lparr>eighth = tk + RESULUTION, seconds = step_seconds tk bpm s\<rparr>"

text \<open>
  The last three elements of a list, and the distance of a candidate from the target.
\<close>

definition last_three :: "'a list \<Rightarrow> 'a list" where
  "last_three xs = drop (length xs - 3) xs"

definition distance :: "real \<Rightarrow> candidate \<Rightarrow> real" where
  "distance t c = \<bar>seconds c - t\<bar>"

section \<open>Basic facts about the model\<close>

lemma beats_to_seconds_RESOLUTION:
  "beats_to_seconds RESOLUTION bpm =
     (if bpm = 0 then Inl ZeroDivisionError else Inr (30 / bpm))"
  by (simp add: beats_to_seconds_def RESOLUTION_def)

text \<open>The first iteration of the loop visits tick 0 and adds no time.\<close>

lemma find_loop_first:
  "find_loop m t (- RESULUTION) bpm 0 [] =
     (let bpm' = (case m 0 of Some v \<Rightarrow> real_of_int v / 1000 | None \<Rightarrow> bpm)
      in if 0 > t then Some (Inr [\<lparr>eighth = 0, seconds = 0\<rparr>])
         else find_loop m t 0 bpm' 0 [\<lparr>eighth = 0, seconds = 0\<rparr>])"
  by (subst find_loop.simps) (simp add: push_candidate_def Let_def)

text \<open>
  The loop unfolded once, and the induction rule for what the loop returns: the step
  raises on a zero BPM, or stops with the candidates, or goes round again.
\<close>

lemma find_loop_step:
  "find_loop m t tk bpm s cs =
     (if 0 < tk + RESULUTION \<and> bpm = 0 then Some (Inl ZeroDivisionError)
      else if t < step_seconds tk bpm s then Some (Inr (step_candidates tk bpm s cs))
      else find_loop m t (tk + RESULUTION) (step_bpm m tk bpm) (step_seconds tk bpm s)
             (step_candidates tk bpm s cs))"
  by (subst find_loop.simps)
     (simp add: Let_def beats_to_seconds_RESOLUTION step_seconds_def step_bpm_def
        step_candidates_def)

lemma find_loop_induct [consumes 1, case_names error break continue]:
  assumes run: "find_loop m t tk bpm s cs = Some r"
    and err: "\<And>tk bpm s cs. 0 < tk + RESULUTION \<Longrightarrow> bpm = 0
                \<Longrightarrow> P tk bpm s cs (Inl ZeroDivisionError)"
    and brk: "\<And>tk bpm s cs. \<not> (0 < tk + RESULUTION \<and> bpm = 0) \<Longrightarrow> t < step_seconds tk bpm s
                \<Longrightarrow> P tk bpm s cs (Inr (step_candidates tk bpm s cs))"
    and cont: "\<And>tk bpm s cs r. \<not> (0 < tk + RESULUTION \<and> bpm = 0)
                \<Longrightarrow> \<not> t < step_seconds tk bpm s
                \<Longrightarrow> P (tk + RESULUTION) (step_bpm m tk bpm) (step_seconds tk bpm s)
                      (step_candidates tk bpm s cs) r
                \<Longrightarrow> P tk bpm s cs r"
  shows "P tk bpm s cs r"
proof -
  have "m' = m \<longrightarrow> t' = t \<longrightarrow> P tk bpm s cs r"
    if "find_loop m' t' tk bpm s cs = Some r" for m' t'
    using that
  proof (rule find_loop.raw_induct [rotated])
    fix f m' t' tk bpm s cs r
    assume IH: "\<And>m' t' tk bpm s cs r. f m' t' tk bpm s cs = Some r
                  \<Longrightarrow> m' = m \<longrightarrow> t' = t \<longrightarrow> P tk bpm s cs r"
      and body: "(let current_8th = tk + RESULUTION
      in case (if current_8th > 0
               then (case beats_to_seconds RESOLUTION bpm of
                       Inl e \<Rightarrow> Inl e
                     | Inr x \<Rightarrow> Inr (s + x))
               else Inr s) of
           Inl e \<Rightarrow> Some (Inl e)
         | Inr current_seconds \<Rightarrow>
             let current_bpm = (case m' current_8th of
                                  Some v \<Rightarrow> real_of_int v / 1000
                                | None \<Rightarrow> bpm);
                 candidates = push_candidate cs
                                \<lparr>eighth = current_8th, seconds = current_seconds\<rparr>
             in if current_seconds > t' then Some (Inr candidates)
                else f m' t' current_8th current_bpm current_seconds candidates) = Some r"
    show "m' = m \<longrightarrow> t' = t \<longrightarrow> P tk bpm s cs r"
    proof (intro impI)
      assume eq: "m' = m" "t' = t"
      consider (e) "0 < tk + RESULUTION \<and> bpm = 0"
        | (b) "\<not> (0 < tk + RESULUTION \<and> bpm = 0)" "t < step_seconds tk bpm s"
        | (c) "\<not> (0 < tk + RESULUTION \<and> bpm = 0)" "\<not> t < step_seconds tk bpm s"
        by blast
      then show "P tk bpm s cs r"
      proof cases
        case e
        with body have "r = Inl ZeroDivisionError"
          by (simp add: Let_def beats_to_seconds_RESOLUTION)
        with e err show ?thesis by simp
      next
        case b
        with body eq have "r = Inr (step_candidates tk bpm s cs)"
          by (auto simp: Let_def beats_to_seconds_RESOLUTION step_seconds_def
                step_candidates_def split: if_splits)
        with b brk show ?thesis by simp
      next
        case c
        with body eq have "f m t (tk + RESULUTION) (step_bpm m tk bpm) (step_seconds tk bpm s)
                      (step_candidates tk bpm s cs) = Some r"
          by (auto simp: Let_def beats_to_seconds_RESOLUTION step_seconds_def step_bpm_def
                step_candidates_def split: if_splits)
        from IH [OF this] have "P (tk + RESULUTION) (step_bpm m tk bpm) (step_seconds tk bpm s)
                      (step_candidates tk bpm s cs) r" by simp
        with c cont show ?thesis by blast
      qed
    qed
  qed
  with run show ?thesis by blast
qed


lemma set_push_candidate: "set (push_candidate cs c) \<subseteq> insert c (set cs)"
  by (cases cs) (auto simp: push_candidate_def Let_def)

lemma find_loop_on_grid:
  assumes "find_loop m t tk bpm s cs = Some r"
  shows "0 \<le> tk + RESULUTION \<Longrightarrow> RESULUTION dvd tk
           \<Longrightarrow> \<forall>c \<in> set cs. 0 \<le> eighth c \<and> RESULUTION dvd eighth c
           \<Longrightarrow> r = Inr cs' \<Longrightarrow> c' \<in> set cs' \<Longrightarrow> 0 \<le> eighth c' \<and> RESULUTION dvd eighth c'"
  using assms
proof (induction rule: find_loop_induct)
  case (error tk bpm s cs)
  then show ?case by simp
next
  case (break tk bpm s cs)
  then show ?case
    using set_push_candidate [of cs "\<lparr>eighth = tk + RESULUTION, seconds = step_seconds tk bpm s\<rparr>"]
    by (auto simp: step_candidates_def)
next
  case (continue tk bpm s cs r)
  have "\<forall>c \<in> set (step_candidates tk bpm s cs). 0 \<le> eighth c \<and> RESULUTION dvd eighth c"
    using continue.prems(1-3)
      set_push_candidate [of cs "\<lparr>eighth = tk + RESULUTION, seconds = step_seconds tk bpm s\<rparr>"]
    by (auto simp: step_candidates_def)
  moreover have "0 \<le> tk + RESULUTION + RESULUTION" "RESULUTION dvd tk + RESULUTION"
    using continue.prems(1,2) by (simp_all add: RESULUTION_def)
  ultimately show ?case
    using continue.IH continue.prems(4,5) by blast
qed

lemma closest_loop_mem:
  "closest_loop t init cs = Some c \<Longrightarrow> c \<in> set cs \<or> init = Some c"
  by (induction cs arbitrary: init) (fastforce split: option.splits if_splits)+

text \<open>
  With a negative BPM the elapsed time never grows: a loop that has not passed the
  target, on a tempo map whose BPM values are all negative, never returns.
\<close>

lemma step_seconds_negative_bpm: "bpm < 0 \<Longrightarrow> step_seconds tk bpm s \<le> s"
  by (simp add: step_seconds_def divide_le_0_iff)

lemma find_loop_negative_never_returns:
  assumes "find_loop m t tk bpm s cs = Some r"
  shows "bpm < 0 \<Longrightarrow> s \<le> t \<Longrightarrow> \<forall>k v. m k = Some v \<longrightarrow> v < 0 \<Longrightarrow> False"
  using assms
proof (induction rule: find_loop_induct)
  case (error tk bpm s cs)
  then show ?case by simp
next
  case (break tk bpm s cs)
  with step_seconds_negative_bpm [of bpm tk s] show ?case
    by linarith
next
  case (continue tk bpm s cs r)
  have "step_seconds tk bpm s \<le> t"
    using continue.prems(1,2) step_seconds_negative_bpm [of bpm tk s] by linarith
  moreover have "step_bpm m tk bpm < 0"
    using continue.prems(1,3) by (auto simp: step_bpm_def divide_less_0_iff split: option.splits)
  ultimately show ?case
    using continue.IH continue.prems(3) by blast
qed

lemma find_loop_negative_None:
  assumes "bpm < 0" and "s \<le> t" and "\<forall>k v. m k = Some v \<longrightarrow> v < 0"
  shows "find_loop m t tk bpm s cs = None"
proof (cases "find_loop m t tk bpm s cs")
  case (Some r)
  from find_loop_negative_never_returns [OF this assms] show ?thesis ..
qed simp

text \<open>
  The candidates are the last three of the points appended so far, and the scan
  returns the first candidate of minimal distance.
\<close>

lemma length_last_three: "length (last_three xs) \<le> 3"
  by (simp add: last_three_def)

lemma push_candidate_last_three:
  "push_candidate (last_three H) p = last_three (H @ [p])"
proof (cases "length H < 3")
  case True
  then show ?thesis
    by (simp add: push_candidate_def last_three_def)
next
  case False
  then have "drop (length H - 3) H \<noteq> []" by simp
  then have "tl (drop (length H - 3) H @ [p]) = drop (Suc (length H - 3)) H @ [p]"
    by (simp add: drop_Suc tl_drop)
  moreover have "Suc (length H - 3) = length H - 2"
    using False by simp
  ultimately show ?thesis
    using False by (simp add: push_candidate_def last_three_def)
qed

lemma find_loop_history:
  assumes "find_loop m t tk bpm s cs = Some r"
  shows "cs = last_three H \<Longrightarrow> r = Inr cs' \<Longrightarrow>
     \<exists>hist. hist \<noteq> [] \<and> (\<forall>j<length hist. eighth (hist ! j) = tk + RESULUTION * (int j + 1))
          \<and> cs' = last_three (H @ hist)"
  using assms
proof (induction arbitrary: H rule: find_loop_induct)
  case (error tk bpm s cs)
  then show ?case by simp
next
  case (break tk bpm s cs)
  let ?p = "\<lparr>eighth = tk + RESULUTION, seconds = step_seconds tk bpm s\<rparr>"
  have "cs' = last_three (H @ [?p])"
    using break.prems by (simp add: step_candidates_def push_candidate_last_three)
  then show ?case
    by (intro exI [of _ "[?p]"]) simp
next
  case (continue tk bpm s cs r)
  let ?p = "\<lparr>eighth = tk + RESULUTION, seconds = step_seconds tk bpm s\<rparr>"
  have "step_candidates tk bpm s cs = last_three (H @ [?p])"
    using continue.prems(1) by (simp add: step_candidates_def push_candidate_last_three)
  from continue.IH [OF this continue.prems(2)] obtain hist where
    h: "hist \<noteq> []"
      "\<forall>j<length hist. eighth (hist ! j) = tk + RESULUTION + RESULUTION * (int j + 1)"
      "cs' = last_three ((H @ [?p]) @ hist)"
    by blast
  have "\<forall>j<length (?p # hist). eighth ((?p # hist) ! j) = tk + RESULUTION * (int j + 1)"
  proof (intro allI impI)
    fix j assume "j < length (?p # hist)"
    then show "eighth ((?p # hist) ! j) = tk + RESULUTION * (int j + 1)"
      using h(2) by (cases j) (simp_all add: algebra_simps)
  qed
  with h(3) show ?case
    by (intro exI [of _ "?p # hist"]) simp
qed

lemma closest_loop_Some:
  "closest_loop t (Some a) cs = Some c \<Longrightarrow>
     (c = a \<and> (\<forall>y \<in> set cs. distance t a \<le> distance t y))
     \<or> (\<exists>xs ys. cs = xs @ c # ys \<and> distance t c < distance t a
           \<and> (\<forall>x \<in> set xs. distance t c < distance t x)
           \<and> (\<forall>y \<in> set ys. distance t c \<le> distance t y))"
proof (induction cs arbitrary: a)
  case Nil
  then show ?case by simp
next
  case (Cons x cs)
  show ?case
  proof (cases "distance t x < distance t a")
    case True
    with Cons.prems have "closest_loop t (Some x) cs = Some c"
      by (simp add: distance_def)
    from Cons.IH [OF this] show ?thesis
    proof
      assume "c = x \<and> (\<forall>y \<in> set cs. distance t x \<le> distance t y)"
      with True have "x # cs = [] @ c # cs \<and> distance t c < distance t a
           \<and> (\<forall>x \<in> set []. distance t c < distance t x)
           \<and> (\<forall>y \<in> set cs. distance t c \<le> distance t y)"
        by simp
      then show ?thesis by blast
    next
      assume "\<exists>xs ys. cs = xs @ c # ys \<and> distance t c < distance t x
           \<and> (\<forall>x \<in> set xs. distance t c < distance t x)
           \<and> (\<forall>y \<in> set ys. distance t c \<le> distance t y)"
      then obtain xs ys where "cs = xs @ c # ys" "distance t c < distance t x"
        "\<forall>x \<in> set xs. distance t c < distance t x" "\<forall>y \<in> set ys. distance t c \<le> distance t y"
        by blast
      with True have "x # cs = (x # xs) @ c # ys \<and> distance t c < distance t a
           \<and> (\<forall>x \<in> set (x # xs). distance t c < distance t x)
           \<and> (\<forall>y \<in> set ys. distance t c \<le> distance t y)"
        by simp
      then show ?thesis by blast
    qed
  next
    case False
    with Cons.prems have "closest_loop t (Some a) cs = Some c"
      by (simp add: distance_def)
    from Cons.IH [OF this] show ?thesis
    proof
      assume "c = a \<and> (\<forall>y \<in> set cs. distance t a \<le> distance t y)"
      with False show ?thesis by simp
    next
      assume "\<exists>xs ys. cs = xs @ c # ys \<and> distance t c < distance t a
           \<and> (\<forall>x \<in> set xs. distance t c < distance t x)
           \<and> (\<forall>y \<in> set ys. distance t c \<le> distance t y)"
      then obtain xs ys where "cs = xs @ c # ys" "distance t c < distance t a"
        "\<forall>x \<in> set xs. distance t c < distance t x" "\<forall>y \<in> set ys. distance t c \<le> distance t y"
        by blast
      with False have "x # cs = (x # xs) @ c # ys \<and> distance t c < distance t a
           \<and> (\<forall>x \<in> set (x # xs). distance t c < distance t x)
           \<and> (\<forall>y \<in> set ys. distance t c \<le> distance t y)"
        by simp
      then show ?thesis by blast
    qed
  qed
qed

lemma closest_loop_first_minimum:
  assumes "closest_loop t None cs = Some c"
  shows "\<exists>xs ys. cs = xs @ c # ys
           \<and> (\<forall>x \<in> set xs. distance t c < distance t x)
           \<and> (\<forall>y \<in> set ys. distance t c \<le> distance t y)"
proof (cases cs)
  case Nil
  with assms show ?thesis by simp
next
  case (Cons x cs')
  with assms have "closest_loop t (Some x) cs' = Some c" by simp
  from closest_loop_Some [OF this] show ?thesis
  proof
    assume "c = x \<and> (\<forall>y \<in> set cs'. distance t x \<le> distance t y)"
    with Cons have "cs = [] @ c # cs' \<and> (\<forall>x \<in> set []. distance t c < distance t x)
           \<and> (\<forall>y \<in> set cs'. distance t c \<le> distance t y)"
      by simp
    then show ?thesis by blast
  next
    assume "\<exists>xs ys. cs' = xs @ c # ys \<and> distance t c < distance t x
           \<and> (\<forall>x \<in> set xs. distance t c < distance t x)
           \<and> (\<forall>y \<in> set ys. distance t c \<le> distance t y)"
    then obtain xs ys where "cs' = xs @ c # ys" "distance t c < distance t x"
        "\<forall>x \<in> set xs. distance t c < distance t x" "\<forall>y \<in> set ys. distance t c \<le> distance t y"
      by blast
    with Cons have "cs = (x # xs) @ c # ys
           \<and> (\<forall>x \<in> set (x # xs). distance t c < distance t x)
           \<and> (\<forall>y \<in> set ys. distance t c \<le> distance t y)"
      by simp
    then show ?thesis by blast
  qed
qed

lemma length_repeat: "length (concat (map (replicate r) xs)) = r * length xs"
  by (induction xs) auto

lemma reps_cover:
  assumes "0 < m"
  shows "n \<le> nat \<lceil>real n / real m\<rceil> * m"
proof -
  define c where "c = \<lceil>real n / real m\<rceil>"
  have "(- 1::real) < 0" and "(0::real) \<le> real n / real m" by simp_all
  then have "- 1 < real n / real m" by (rule less_le_trans)
  then have nonneg: "0 \<le> c" unfolding c_def by (simp only: zero_le_ceiling)
  have "real n / real m \<le> real_of_int c"
    unfolding c_def by (rule le_of_int_ceiling)
  moreover have "0 < real m" using assms by simp
  ultimately have "real n \<le> real_of_int c * real m"
    by (simp only: pos_divide_le_eq)
  also have "real_of_int c = real (nat c)"
    using nonneg by simp
  finally have "real n \<le> real (nat c * m)"
    by simp
  then have "n \<le> nat c * m"
    by (simp only: of_nat_le_iff)
  then show ?thesis by (simp only: c_def)
qed





section \<open>Hit extraction: the claims\<close>

text \<open>
  C7: for every waveform and every energy mask with at least one frame (the RMS curve
  always has one), the mask repeated and trimmed has exactly the length of the
  waveform, and the elementwise product with the waveform is defined and has that
  length too.
\<close>

theorem upsampled_mask_length:
  "mask_arr \<noteq> [] \<Longrightarrow>
     \<exists>m. upsample_mask mask_arr (length y) = Inr m \<and> length m = length y
         \<and> (\<exists>g. apply_mask y m = Inr g \<and> length g = length y)"
  using reps_cover [of "length mask_arr" "length y"]
  by (simp add: upsample_mask_def apply_mask_def length_repeat Let_def)

theorem upsampled_mask_length_witness:
  "[True, False] \<noteq> [] \<and>
   (\<exists>m. upsample_mask [True, False] (length [1, 2, 3 :: real]) = Inr m
       \<and> length m = length [1, 2, 3 :: real]
       \<and> (\<exists>g. apply_mask [1, 2, 3] m = Inr g \<and> length g = length [1, 2, 3 :: real]))"
  using upsampled_mask_length [of "[True, False]" "[1, 2, 3]"] by simp



text \<open>
  An onset at exactly time 0 is the one case that the test \<open>prev_hit and ...\<close> takes
  for no previous hit: a kick onset 0.05 seconds after it would be kept.
\<close>

lemma kick_hit_after_time_zero_kept:
  "map_to_hits (\<lambda>file threshold. [0, 0.05]) [(kick, Some ''kick-1.mp3'')]
     = [\<lparr>instrument = kick, time = 0\<rparr>, \<lparr>instrument = kick, time = 0.05\<rparr>]"
  by (simp add: map_to_hits_def)

section \<open>Time-to-tick mapping: the claims\<close>

text \<open>
  C3: the loop has no iteration bound and no divergence error. With BPM 0 at tick 0
  and a target that is not negative, the mapper raises a \<open>ZeroDivisionError\<close> at the
  first step past tick 0; with a tempo map whose BPM values are all negative and a
  target that is not negative, the mapper never returns.
\<close>

theorem no_iteration_guard:
  "(m 0 = Some 0 \<and> 0 \<le> t
      \<longrightarrow> find_beat_time_for_seconds (Some m) t = Some (Inl ZeroDivisionError))
   \<and> (m 0 = Some v \<and> (\<forall>k w. m k = Some w \<longrightarrow> w < 0) \<and> 0 \<le> t
      \<longrightarrow> find_beat_time_for_seconds (Some m) t = None)"
proof (intro conjI impI)
  assume a: "m 0 = Some 0 \<and> 0 \<le> t"
  have "find_loop m t 0 0 0 [\<lparr>eighth = 0, seconds = 0\<rparr>] = Some (Inl ZeroDivisionError)"
    by (subst find_loop_step) (simp add: RESULUTION_def)
  with a have "find_loop m t (- RESULUTION) (real_of_int 0 / 1000) 0 []
                 = Some (Inl ZeroDivisionError)"
    by (simp add: find_loop_first)
  with a show "find_beat_time_for_seconds (Some m) t = Some (Inl ZeroDivisionError)"
    by (simp add: find_beat_time_for_seconds_def)
next
  assume a: "m 0 = Some v \<and> (\<forall>k w. m k = Some w \<longrightarrow> w < 0) \<and> 0 \<le> t"
  then have v: "real_of_int v / 1000 < 0"
    by (auto simp: divide_less_0_iff)
  have "find_loop m t 0 (real_of_int v / 1000) 0 [\<lparr>eighth = 0, seconds = 0\<rparr>] = None"
    using v a by (intro find_loop_negative_None) simp_all
  with a have "find_loop m t (- RESULUTION) (real_of_int v / 1000) 0 [] = None"
    by (simp add: find_loop_first)
  with a show "find_beat_time_for_seconds (Some m) t = None"
    by (simp add: find_beat_time_for_seconds_def)
qed

theorem no_iteration_guard_witness:
  "[0 \<mapsto> 0] (0::int) = Some (0::int) \<and> (0::real) \<le> 1
   \<and> find_beat_time_for_seconds (Some [0 \<mapsto> 0]) 1 = Some (Inl ZeroDivisionError)
   \<and> [0 \<mapsto> - 120000] (0::int) = Some (- 120000 :: int) \<and> (- 120000 :: int) < 0
   \<and> find_beat_time_for_seconds (Some [0 \<mapsto> - 120000]) 1 = None"
proof -
  have neg: "\<forall>k w. [0 \<mapsto> - 120000 :: int] (k::int) = Some w \<longrightarrow> w < 0"
    by (simp split: if_splits)
  have "find_beat_time_for_seconds (Some [0 \<mapsto> 0]) 1 = Some (Inl ZeroDivisionError)"
    using no_iteration_guard [where m = "[0 \<mapsto> 0]" and t = 1] by simp
  moreover have "find_beat_time_for_seconds (Some [0 \<mapsto> - 120000]) 1 = None"
    using no_iteration_guard [where m = "[0 \<mapsto> - 120000]" and v = "- 120000" and t = 1] neg
    by simp
  ultimately show ?thesis by simp
qed

text \<open>
  The claim C3 as stated fails at the tempo map \<open>{0: -120000}\<close> and the target 1:
  the loop runs forever, where the claim has it fail with an error.
\<close>

theorem negative_bpm_runs_forever:
  "find_beat_time_for_seconds (Some [0 \<mapsto> - 120000]) 1 = None"
proof -
  have "find_loop [0 \<mapsto> - 120000] 1 0 (real_of_int (- 120000) / 1000) 0
          [\<lparr>eighth = 0, seconds = 0\<rparr>] = None"
    by (rule find_loop_negative_None) (simp_all split: if_splits)
  then show ?thesis
    by (simp add: find_beat_time_for_seconds_def find_loop_first)
qed

text \<open>
  C4: the candidate buffer has capacity 3. Appending to the last three of a history
  gives the last three of the extended history; when the mapper returns a tick, the
  loop has visited the ticks 0, 96, 192, ... in turn, the candidates at the break are
  the last three of the points visited, and the tick returned belongs to the first
  candidate among them whose elapsed time is closest to the target.
\<close>

theorem candidates_hold_last_three:
  assumes "find_beat_time_for_seconds (Some m) t = Some (Inr tick)"
  shows "push_candidate (last_three H) p = last_three (H @ [p])
    \<and> (\<exists>v hist cs xs c ys.
         m 0 = Some v
       \<and> find_loop m t (- RESULUTION) (real_of_int v / 1000) 0 [] = Some (Inr cs)
       \<and> hist \<noteq> [] \<and> (\<forall>j<length hist. eighth (hist ! j) = RESULUTION * int j)
       \<and> cs = last_three hist \<and> length cs \<le> 3
       \<and> cs = xs @ c # ys \<and> tick = eighth c
       \<and> (\<forall>x \<in> set xs. \<bar>seconds c - t\<bar> < \<bar>seconds x - t\<bar>)
       \<and> (\<forall>y \<in> set ys. \<bar>seconds c - t\<bar> \<le> \<bar>seconds y - t\<bar>))"
proof
  show "push_candidate (last_three H) p = last_three (H @ [p])"
    by (rule push_candidate_last_three)
next
  from assms obtain v cs c where v: "m 0 = Some v"
    and loop: "find_loop m t (- RESULUTION) (real_of_int v / 1000) 0 [] = Some (Inr cs)"
    and cl: "closest_loop t None cs = Some c" and tick: "tick = eighth c"
    by (auto simp: find_beat_time_for_seconds_def split: option.splits sum.splits)
  from find_loop_history [OF loop, of "[]" cs] obtain hist where
    h: "hist \<noteq> []" "\<forall>j<length hist. eighth (hist ! j) = - RESULUTION + RESULUTION * (int j + 1)"
      "cs = last_three hist"
    by (auto simp: last_three_def)
  from h(2) have h2: "\<forall>j<length hist. eighth (hist ! j) = RESULUTION * int j"
    by (simp add: algebra_simps)
  from closest_loop_first_minimum [OF cl] obtain xs ys where
    "cs = xs @ c # ys" "\<forall>x \<in> set xs. distance t c < distance t x"
    "\<forall>y \<in> set ys. distance t c \<le> distance t y"
    by blast
  with v loop h(1,3) h2 tick length_last_three [of hist]
  show "\<exists>v hist cs xs c ys.
         m 0 = Some v
       \<and> find_loop m t (- RESULUTION) (real_of_int v / 1000) 0 [] = Some (Inr cs)
       \<and> hist \<noteq> [] \<and> (\<forall>j<length hist. eighth (hist ! j) = RESULUTION * int j)
       \<and> cs = last_three hist \<and> length cs \<le> 3
       \<and> cs = xs @ c # ys \<and> tick = eighth c
       \<and> (\<forall>x \<in> set xs. \<bar>seconds c - t\<bar> < \<bar>seconds x - t\<bar>)
       \<and> (\<forall>y \<in> set ys. \<bar>seconds c - t\<bar> \<le> \<bar>seconds y - t\<bar>)"
    unfolding distance_def by blast
qed

theorem candidates_hold_last_three_witness:
  "find_beat_time_for_seconds (Some [0 \<mapsto> 120000]) 0.6 = Some (Inr 192)
   \<and> push_candidate (last_three [\<lparr>eighth = 0, seconds = 0\<rparr>]) \<lparr>eighth = 96, seconds = 0.25\<rparr>
       = last_three ([\<lparr>eighth = 0, seconds = 0\<rparr>] @ [\<lparr>eighth = 96, seconds = 0.25\<rparr>])
   \<and> (\<exists>v hist cs xs c ys.
         [0 \<mapsto> 120000] (0::int) = Some (v::int)
       \<and> find_loop [0 \<mapsto> 120000] 0.6 (- RESULUTION) (real_of_int v / 1000) 0 []
           = Some (Inr cs)
       \<and> hist \<noteq> [] \<and> (\<forall>j<length hist. eighth (hist ! j) = RESULUTION * int j)
       \<and> cs = last_three hist \<and> length cs \<le> 3
       \<and> cs = xs @ c # ys \<and> 192 = eighth c
       \<and> (\<forall>x \<in> set xs. \<bar>seconds c - 0.6\<bar> < \<bar>seconds x - 0.6\<bar>)
       \<and> (\<forall>y \<in> set ys. \<bar>seconds c - 0.6\<bar> \<le> \<bar>seconds y - 0.6\<bar>))"
proof -
  have run: "find_beat_time_for_seconds (Some [0 \<mapsto> 120000]) 0.6 = Some (Inr 192)"
    by (simp add: find_beat_time_for_seconds_def find_loop.simps RESULUTION_def
          RESOLUTION_def push_candidate_def beats_to_seconds_def)
  from candidates_hold_last_three [OF run, of "[\<lparr>eighth = 0, seconds = 0\<rparr>]"
      "\<lparr>eighth = 96, seconds = 0.25\<rparr>"] run
  show ?thesis by blast
qed

text \<open>
  The claim C4 as stated, with capacity 4, fails at the tempo map \<open>{0: 120000}\<close> and
  the target 0.6: the loop appends four points, at the ticks 0, 96, 192 and 288, and
  at the break the buffer holds three of them; the fourth append already dropped the
  point of tick 0.
\<close>

theorem fourth_append_drops_oldest:
  "push_candidate
     [\<lparr>eighth = 0, seconds = 0\<rparr>, \<lparr>eighth = 96, seconds = 0.25\<rparr>,
      \<lparr>eighth = 192, seconds = 0.5\<rparr>] \<lparr>eighth = 288, seconds = 0.75\<rparr>
     = [\<lparr>eighth = 96, seconds = 0.25\<rparr>, \<lparr>eighth = 192, seconds = 0.5\<rparr>,
        \<lparr>eighth = 288, seconds = 0.75\<rparr>]
   \<and> find_loop [0 \<mapsto> 120000] 0.6 (- RESULUTION) 120 0 []
     = Some (Inr [\<lparr>eighth = 96, seconds = 0.25\<rparr>, \<lparr>eighth = 192, seconds = 0.5\<rparr>,
                  \<lparr>eighth = 288, seconds = 0.75\<rparr>])"
  by (simp add: find_loop.simps RESULUTION_def RESOLUTION_def push_candidate_def
        beats_to_seconds_def)

text \<open>
  C5: a negative target time raises no error. For every tempo map with an entry at
  tick 0 and every negative target, the mapper returns tick 0: the loop stops in its
  first iteration, where the elapsed time 0 already exceeds the target.
\<close>

theorem negative_target_returns_tick_0:
  "m 0 = Some v \<Longrightarrow> t < 0 \<Longrightarrow> find_beat_time_for_seconds (Some m) t = Some (Inr 0)"
  by (simp add: find_beat_time_for_seconds_def find_loop_first)

theorem negative_target_returns_tick_0_witness:
  "[0 \<mapsto> 120000] (0::int) = Some (120000::int) \<and> (- 2.5::real) < 0
   \<and> find_beat_time_for_seconds (Some [0 \<mapsto> 120000]) (- 2.5) = Some (Inr 0)"
  using negative_target_returns_tick_0 [of "[0 \<mapsto> 120000]" 120000 "- 2.5"] by simp

text \<open>
  The claim C5 as stated fails at the tempo map \<open>{0: 120000}\<close> and the target \<open>-1\<close>:
  the mapper returns a tick.
\<close>

theorem negative_target_no_error:
  "find_beat_time_for_seconds (Some [0 \<mapsto> 120000]) (- 1) = Some (Inr 0)"
  by (simp add: find_beat_time_for_seconds_def find_loop.simps RESULUTION_def
        push_candidate_def)

text \<open>
  C6: for every hit list that is not empty, a tempo map without an entry at tick 0
  makes \<open>map_to_beat_time\<close> raise a \<open>KeyError\<close> (the program's error for the missing
  key) at the first hit, so no note is produced; for the empty hit list it returns
  the empty list and raises nothing.
\<close>

theorem missing_tick_0_raises_KeyError:
  assumes "m 0 = None"
  shows "(hits_dict \<noteq> [] \<longrightarrow> map_to_beat_time hits_dict (Some m) = Some (Inl KeyError))
       \<and> map_to_beat_time [] (Some m) = Some (Inr [])"
proof (intro conjI impI)
  assume ne: "hits_dict \<noteq> []"
  then have "sort_key time hits_dict \<noteq> []"
    by (metis length_sort length_0_conv)
  then obtain hit hits where s: "sort_key time hits_dict = hit # hits"
    by (cases "sort_key time hits_dict") auto
  have "find_beat_time_for_seconds (Some m) (time hit) = Some (Inl KeyError)"
    using assms by (simp add: find_beat_time_for_seconds_def)
  then show "map_to_beat_time hits_dict (Some m) = Some (Inl KeyError)"
    by (simp add: map_to_beat_time_def s)
next
  show "map_to_beat_time [] (Some m) = Some (Inr [])"
    by (simp add: map_to_beat_time_def)
qed

theorem missing_tick_0_raises_KeyError_witness:
  "(Map.empty :: int \<rightharpoonup> int) 0 = None
   \<and> [\<lparr>instrument = kick, time = 0.5 :: real\<rparr>] \<noteq> []
   \<and> map_to_beat_time [\<lparr>instrument = kick, time = 0.5\<rparr>] (Some Map.empty)
       = Some (Inl KeyError)
   \<and> map_to_beat_time [] (Some Map.empty) = Some (Inr [])"
  using missing_tick_0_raises_KeyError [of Map.empty "[\<lparr>instrument = kick, time = 0.5\<rparr>]"]
  by simp

text \<open>
  The claim C6 as stated fails at the empty hit list: with the empty tempo map,
  \<open>map_to_beat_time\<close> returns the empty list and raises nothing.
\<close>

theorem missing_tick_0_empty_hits_no_error:
  "map_to_beat_time [] (Some Map.empty) = Some (Inr [])"
  by (simp add: map_to_beat_time_def)

text \<open>
  C8: whenever the mapper returns a tick, for any tempo map (it returns none without
  tick 0) and any target, the tick is a non-negative multiple of the step of 96 ticks.
\<close>

theorem returned_tick_on_grid:
  assumes "find_beat_time_for_seconds (Some m) t = Some (Inr tick)"
  shows "0 \<le> tick \<and> RESULUTION dvd tick"
proof -
  from assms obtain v cs c where
    loop: "find_loop m t (- RESULUTION) (real_of_int v / 1000) 0 [] = Some (Inr cs)"
    and cl: "closest_loop t None cs = Some c" and tick: "tick = eighth c"
    by (auto simp: find_beat_time_for_seconds_def split: option.splits sum.splits)
  have "c \<in> set cs"
    using closest_loop_mem [OF cl] by simp
  then show ?thesis
    using find_loop_on_grid [OF loop _ _ _ refl, of c] by (simp add: tick)
qed

theorem returned_tick_on_grid_witness:
  "find_beat_time_for_seconds (Some [0 \<mapsto> 120000, 960 \<mapsto> 240000]) 2.6 = Some (Inr 1056)
   \<and> (0::int) \<le> 1056 \<and> RESULUTION dvd 1056"
proof -
  have "find_beat_time_for_seconds (Some [0 \<mapsto> 120000, 960 \<mapsto> 240000]) 2.6
          = Some (Inr 1056)"
    by (simp add: find_beat_time_for_seconds_def find_loop.simps RESULUTION_def
          RESOLUTION_def push_candidate_def beats_to_seconds_def)
  then show ?thesis
    using returned_tick_on_grid [of "[0 \<mapsto> 120000, 960 \<mapsto> 240000]" "2.6" 1056]
    by simp
qed

text \<open>
  C10: for the empty hit list, \<open>map_to_beat_time\<close> returns the empty list whatever
  the sync track is: \<open>None\<close>, the empty dictionary, or one without tick 0.
\<close>

theorem empty_hits_returns_empty: "map_to_beat_time [] sync_track = Some (Inr [])"
  by (simp add: map_to_beat_time_def)

end
